theory Spec2Isabelle
  imports Main "HOL-Library.Word"
begin

section \<open>The store client, as gogridfs.go uses it\<close>

text \<open>
  The program reaches MongoDB's GridFS through the mgo driver, which is not part of the
  repository. The driver is therefore a parameter of the model: a store answers
  \<open>OpenId\<close> and \<open>Open\<close> with an error (and no handle) or with a file handle (and a
  nil error), and a handle answers its successive \<open>Read\<close> calls and its \<open>Close\<close>
  call. Every call the program makes on the store is recorded, in order, in \<open>calls\<close>.
\<close>

type_synonym byte = "8 word"

text \<open>Go's \<open>error\<close> values; \<open>nil\<close> is \<open>None\<close> of \<open>error option\<close>. \<open>EOF\<close> is \<open>io.EOF\<close>.\<close>

datatype error = EOF | ErrNotFound | ErrOther string

text \<open>
  An opened \<open>*mgo.GridFile\<close>. \<open>gf_reads h k\<close> is what the k-th call (from 0) of
  \<open>Read(buffer)\<close> on the handle delivers: the bytes \<open>buffer[:n]\<close> it has placed in the
  buffer, whose number is the returned count \<open>n\<close>, and the returned error.
\<close>

record GridFile =
  gf_name :: string
  gf_reads :: "nat \<Rightarrow> byte list \<times> error option"
  gf_close :: "error option"

datatype call = OpenIdCall string | OpenCall string | ReadCall | CloseCall

record GridFS =
  byId :: "string \<Rightarrow> error + GridFile"
  byName :: "string \<Rightarrow> error + GridFile"
  calls :: "call list"

definition OpenId :: "GridFS \<Rightarrow> string \<Rightarrow> (error + GridFile) \<times> GridFS" where
  "OpenId gfs ident = (byId gfs ident, gfs\<lparr>calls := calls gfs @ [OpenIdCall ident]\<rparr>)"

definition Open :: "GridFS \<Rightarrow> string \<Rightarrow> (error + GridFile) \<times> GridFS" where
  "Open gfs nm = (byName gfs nm, gfs\<lparr>calls := calls gfs @ [OpenCall nm]\<rparr>)"

definition Name :: "GridFile \<Rightarrow> string" where
  "Name gfsFile = gf_name gfsFile"

definition Read :: "GridFile \<Rightarrow> nat \<Rightarrow> GridFS \<Rightarrow> (byte list \<times> error option) \<times> GridFS" where
  "Read gfsFile k gfs = (gf_reads gfsFile k, gfs\<lparr>calls := calls gfs @ [ReadCall]\<rparr>)"

definition Close :: "GridFile \<Rightarrow> GridFS \<Rightarrow> error option \<times> GridFS" where
  "Close gfsFile gfs = (gf_close gfsFile, gfs\<lparr>calls := calls gfs @ [CloseCall]\<rparr>)"

text \<open>A Go function either returns or panics (a slice expression out of range).\<close>

datatype 'a outcome = Panic | Return 'a

section \<open>getFile\<close>

text \<open>
  The \<open>for\<close> loop of \<open>getFile\<close> (lines 77 to 88). \<open>k\<close> counts the reads made on the
  handle so far and \<open>file\<close> is the buffer being filled. The buffer handed to \<open>Read\<close> has
  4096 bytes, so \<open>buffer[:bytes_r]\<close> panics when the handle reports more than that.
  The loop's \<open>err\<close> is declared by \<open>:=\<close> inside the loop body: it decides the
  \<open>break\<close> and is gone after the loop, which is why the loop hands back the buffer only.
  A handle that never reports an error keeps the loop running: the result is \<open>None\<close>.
\<close>

partial_function (option) readLoop ::
  "GridFile \<Rightarrow> nat \<Rightarrow> byte list \<Rightarrow> GridFS \<Rightarrow> (byte list \<times> GridFS) outcome option" where
  "readLoop gfsFile k file gfs =
     (case Read gfsFile k gfs of
        ((buffer, err), gfs') \<Rightarrow>
          let bytes_r = length buffer in
          (case (if bytes_r > 0
                 then (if bytes_r > 4096 then Panic else Return (file @ buffer))
                 else Return file) of
             Panic \<Rightarrow> Some Panic
           | Return file' \<Rightarrow>
               if err \<noteq> None then Some (Return (file', gfs'))
               else readLoop gfsFile (k + 1) file' gfs'))"

text \<open>
  \<open>getFile value field\<close> (lines 60 to 102), on the store \<open>ggfs.GFS\<close>. The named results
  \<open>file\<close>, \<open>filename\<close> and \<open>err\<close> start at their zero values and every \<open>return\<close> hands
  back their current contents. After a successful open the function's \<open>err\<close> is
  \<open>nil\<close>, and the loop does not assign it.
\<close>

definition getFile ::
  "GridFS \<Rightarrow> string \<Rightarrow> string \<Rightarrow> ((byte list \<times> string \<times> error option) \<times> GridFS) outcome option" where
  "getFile gfs val field =
     (let file = []; filename = [] in
      case (if field = ''_id'' then OpenId gfs val else Open gfs val) of
        (Inl err, gfs1) \<Rightarrow> Some (Return ((file, filename, Some err), gfs1))
      | (Inr gfsFile, gfs1) \<Rightarrow>
          let err = None; filename = Name gfsFile in
          (case readLoop gfsFile 0 file gfs1 of
             None \<Rightarrow> None
           | Some Panic \<Rightarrow> Some Panic
           | Some (Return (file, gfs2)) \<Rightarrow>
               if err \<noteq> Some EOF then Some (Return ((file, filename, err), gfs2))
               else
                 (case Close gfsFile gfs2 of
                    (err, gfs3) \<Rightarrow>
                      if err \<noteq> None then Some (Return ((file, filename, err), gfs3))
                      else Some (Return ((file, filename, err), gfs3)))))"

section \<open>fileHandler\<close>

text \<open>The \<open>config\<close> struct, unmarshalled from JSON at startup.\<close>

record config =
  Servers :: "string list"
  Logfile :: string
  Database :: string
  GridFSCollection :: string
  Field_conf :: string
  Listen :: string
  HandlePath :: string
  Debug :: bool
  Mode :: string

text \<open>What \<open>Logger.Println\<close> is given: a path (when debugging) or an error.\<close>

datatype logged = LogString string | LogError error

text \<open>The global \<open>ggfs\<close>; the logger is the list of the lines printed so far.\<close>

record gogridfs =
  GFS :: GridFS
  Logger :: "logged list"
  Conf :: config

record gridfile =
  Path :: string
  Data :: "byte list"

text \<open>
  The \<open>http.ResponseWriter\<close> of one request. \<open>status\<close> is \<open>None\<close> until the
  header has been written. The handler never calls \<open>WriteHeader\<close>; net/http documents
  that \<open>Write\<close> then calls \<open>WriteHeader(http.StatusOK)\<close> before it writes the data.
\<close>

record ResponseWriter =
  header :: "string \<rightharpoonup> string list"
  status :: "nat option"
  body :: "byte list"

record Request =
  URL_Path :: string

definition Println :: "logged list \<Rightarrow> logged \<Rightarrow> logged list" where
  "Println logger v = logger @ [v]"

definition Header_Set :: "ResponseWriter \<Rightarrow> string \<Rightarrow> string \<Rightarrow> ResponseWriter" where
  "Header_Set w key v = w\<lparr>header := (header w)(key \<mapsto> [v])\<rparr>"

definition Write :: "ResponseWriter \<Rightarrow> byte list \<Rightarrow> ResponseWriter" where
  "Write w p =
     w\<lparr>status := (case status w of None \<Rightarrow> Some 200 | Some c \<Rightarrow> Some c),
       body := body w @ p\<rparr>"

text \<open>
  \<open>fileHandler w r\<close> (lines 105 to 127). The slice \<open>r.URL.Path[len(HandlePath):]\<close>
  panics when the path is shorter than the prefix. \<open>Data.String()\<close> printed with
  \<open>%s\<close> writes the bytes of the buffer unchanged.
\<close>

definition fileHandler ::
  "gogridfs \<Rightarrow> ResponseWriter \<Rightarrow> Request \<Rightarrow> (gogridfs \<times> ResponseWriter) outcome option" where
  "fileHandler ggfs w r =
     (if length (HandlePath (Conf ggfs)) > length (URL_Path r) then Some Panic
      else
        let path = drop (length (HandlePath (Conf ggfs))) (URL_Path r);
            ggfs1 = (if Debug (Conf ggfs) = True
                     then ggfs\<lparr>Logger := Println (Logger ggfs) (LogString path)\<rparr>
                     else ggfs)
        in case getFile (GFS ggfs1) path (Field_conf (Conf ggfs1)) of
             None \<Rightarrow> None
           | Some Panic \<Rightarrow> Some Panic
           | Some (Return ((data, filename, err), gfs')) \<Rightarrow>
               let ggfs2 = ggfs1\<lparr>GFS := gfs'\<rparr>;
                   file = \<lparr>Path = path, Data = data\<rparr>;
                   ggfs3 = (case err of
                              Some e \<Rightarrow> ggfs2\<lparr>Logger := Println (Logger ggfs2) (LogError e)\<rparr>
                            | None \<Rightarrow> ggfs2);
                   w1 = Header_Set w ''Content-Disposition''
                          (''attachment; filename='' @ [CHR 0x22] @ filename @ [CHR 0x22]);
                   w2 = Write w1 (Data file)
               in Some (Return (ggfs3, w2)))"

section \<open>Vocabulary of the properties\<close>

text \<open>The lookup and the store call that \<open>getFile\<close> selects for a configured field.\<close>

definition resolved :: "GridFS \<Rightarrow> string \<Rightarrow> string \<Rightarrow> error + GridFile" where
  "resolved gfs field key = (if field = ''_id'' then byId gfs key else byName gfs key)"

definition open_call :: "string \<Rightarrow> string \<Rightarrow> call" where
  "open_call field key = (if field = ''_id'' then OpenIdCall key else OpenCall key)"

text \<open>A read that lets the loop go on: no error, and no more bytes than the buffer holds.\<close>

definition quiet :: "GridFile \<Rightarrow> nat \<Rightarrow> bool" where
  "quiet gfsFile i =
     (snd (gf_reads gfsFile i) = None \<and> length (fst (gf_reads gfsFile i)) \<le> 4096)"

text \<open>The bytes delivered by the \<open>n\<close> reads that start with read \<open>k\<close>, in order.\<close>

definition delivered :: "GridFile \<Rightarrow> nat \<Rightarrow> nat \<Rightarrow> byte list" where
  "delivered gfsFile k n = concat (map (\<lambda>i. fst (gf_reads gfsFile i)) [k..<k + n])"

subsection \<open>A small store for the examples\<close>

text \<open>
  \<open>report_pdf\<close> delivers five bytes, the last two together with end of stream;
  \<open>named_like_id\<close> is a file whose name reads like an identifier; \<open>broken_bin\<close>
  delivers three bytes and then fails with an error that is not end of stream.
\<close>

definition report_pdf :: GridFile where
  "report_pdf =
     \<lparr>gf_name = ''report.pdf'',
      gf_reads = (\<lambda>k. if k = 0 then ([1, 2, 3], None) else ([4, 5], Some EOF)),
      gf_close = None\<rparr>"

definition named_like_id :: GridFile where
  "named_like_id =
     \<lparr>gf_name = ''64b2f1'',
      gf_reads = (\<lambda>k. if k = 0 then ([9], None) else ([], Some EOF)),
      gf_close = None\<rparr>"

definition broken_bin :: GridFile where
  "broken_bin =
     \<lparr>gf_name = ''broken.bin'',
      gf_reads = (\<lambda>k. if k = 0 then ([1, 2, 3], None)
                       else ([], Some (ErrOther ''connection reset''))),
      gf_close = None\<rparr>"

definition sample_store :: GridFS where
  "sample_store =
     \<lparr>byId = (\<lambda>i. if i = ''64b2f1'' then Inr report_pdf else Inl ErrNotFound),
      byName = (\<lambda>n. if n = ''report.pdf'' then Inr report_pdf
                     else if n = ''64b2f1'' then Inr named_like_id
                     else if n = ''broken.bin'' then Inr broken_bin
                     else Inl ErrNotFound),
      calls = []\<rparr>"

definition sample_conf :: config where
  "sample_conf =
     \<lparr>Servers = [''a:27017''], Logfile = [], Database = ''fs'',
      GridFSCollection = ''files'', Field_conf = ''filename'', Listen = '':8080'',
      HandlePath = ''/f/'', Debug = True, Mode = ''strong''\<rparr>"

definition sample_ggfs :: gogridfs where
  "sample_ggfs = \<lparr>GFS = sample_store, Logger = [], Conf = sample_conf\<rparr>"

definition fresh_writer :: ResponseWriter where
  "fresh_writer = \<lparr>header = Map.empty, status = None, body = []\<rparr>"

section \<open>The read loop\<close>

lemma readLoop_continue:
  "quiet gfsFile k \<Longrightarrow>
   readLoop gfsFile k acc gfs =
     readLoop gfsFile (Suc k) (acc @ fst (gf_reads gfsFile k))
       (gfs\<lparr>calls := calls gfs @ [ReadCall]\<rparr>)"
  by (subst readLoop.simps) (auto simp: quiet_def Read_def Let_def split: prod.splits)

lemma readLoop_break:
  "snd (gf_reads gfsFile k) \<noteq> None \<Longrightarrow> length (fst (gf_reads gfsFile k)) \<le> 4096 \<Longrightarrow>
   readLoop gfsFile k acc gfs =
     Some (Return (acc @ fst (gf_reads gfsFile k), gfs\<lparr>calls := calls gfs @ [ReadCall]\<rparr>))"
  by (subst readLoop.simps) (auto simp: Read_def Let_def split: prod.splits)

lemma readLoop_oversize:
  "length (fst (gf_reads gfsFile k)) > 4096 \<Longrightarrow> readLoop gfsFile k acc gfs = Some Panic"
  by (subst readLoop.simps) (auto simp: Read_def Let_def split: prod.splits)

lemma delivered_Suc:
  "delivered gfsFile k (Suc n) = fst (gf_reads gfsFile k) @ delivered gfsFile (Suc k) n"
proof -
  have "[k..<k + Suc n] = k # [Suc k..<Suc k + n]"
    by (simp add: upt_conv_Cons del: upt_Suc)
  then show ?thesis by (simp add: delivered_def del: upt_Suc)
qed

text \<open>The loop returns at the first read that reports an error, with all bytes up to it.\<close>

lemma readLoop_returns:
  "\<forall>i<n. quiet gfsFile (k + i) \<Longrightarrow> snd (gf_reads gfsFile (k + n)) \<noteq> None \<Longrightarrow>
   length (fst (gf_reads gfsFile (k + n))) \<le> 4096 \<Longrightarrow>
   readLoop gfsFile k acc gfs =
     Some (Return (acc @ delivered gfsFile k (Suc n),
                   gfs\<lparr>calls := calls gfs @ replicate (Suc n) ReadCall\<rparr>))"
proof (induction n arbitrary: k acc gfs)
  case 0
  then show ?case by (simp add: readLoop_break delivered_def)
next
  case (Suc n)
  have q: "quiet gfsFile k" using Suc.prems(1) by force
  have rest: "\<forall>i<n. quiet gfsFile (Suc k + i)" using Suc.prems(1) by force
  have "readLoop gfsFile k acc gfs =
     readLoop gfsFile (Suc k) (acc @ fst (gf_reads gfsFile k))
       (gfs\<lparr>calls := calls gfs @ [ReadCall]\<rparr>)"
    by (rule readLoop_continue[OF q])
  also have "\<dots> =
     Some (Return ((acc @ fst (gf_reads gfsFile k)) @ delivered gfsFile (Suc k) (Suc n),
       (gfs\<lparr>calls := calls gfs @ [ReadCall]\<rparr>)
         \<lparr>calls := calls (gfs\<lparr>calls := calls gfs @ [ReadCall]\<rparr>) @ replicate (Suc n) ReadCall\<rparr>))"
    using Suc.prems(2,3) by (intro Suc.IH[OF rest]) simp_all
  finally show ?case
    by (simp add: delivered_Suc[of _ k])
qed

lemma readLoop_panics:
  "\<forall>i<n. quiet gfsFile (k + i) \<Longrightarrow> length (fst (gf_reads gfsFile (k + n))) > 4096 \<Longrightarrow>
   readLoop gfsFile k acc gfs = Some Panic"
proof (induction n arbitrary: k acc gfs)
  case 0
  then show ?case by (simp add: readLoop_oversize)
next
  case (Suc n)
  have q: "quiet gfsFile k" using Suc.prems(1) by force
  have rest: "\<forall>i<n. quiet gfsFile (Suc k + i)" using Suc.prems(1) by force
  have "readLoop gfsFile k acc gfs =
     readLoop gfsFile (Suc k) (acc @ fst (gf_reads gfsFile k))
       (gfs\<lparr>calls := calls gfs @ [ReadCall]\<rparr>)"
    by (rule readLoop_continue[OF q])
  also have "\<dots> = Some Panic"
    using Suc.prems(2) by (intro Suc.IH[OF rest]) simp
  finally show ?case .
qed

text \<open>A loop that comes to an end has met a read that is not quiet.\<close>

lemma readLoop_Some_stops:
  assumes "readLoop gfsFile0 k0 acc0 gfs0 = Some out0"
  shows "\<exists>n. (\<forall>i<n. quiet gfsFile0 (k0 + i)) \<and> \<not> quiet gfsFile0 (k0 + n)"
proof (rule readLoop.raw_induct[where P = "\<lambda>gfsFile k acc gfs out.
         \<exists>n. (\<forall>i<n. quiet gfsFile (k + i)) \<and> \<not> quiet gfsFile (k + n)", OF _ assms],
       goal_cases)
  case (1 readLoop' gfsFile k acc gfs out)
  show ?case
  proof (cases "quiet gfsFile k")
    case False
    then have "(\<forall>i<0. quiet gfsFile (k + i)) \<and> \<not> quiet gfsFile (k + 0)" by simp
    then show ?thesis by (rule exI)
  next
    case True
    obtain buffer where rd: "gf_reads gfsFile k = (buffer, None)"
      and len: "length buffer \<le> 4096"
      using True by (cases "gf_reads gfsFile k") (simp add: quiet_def)
    have step: "readLoop' gfsFile (k + 1) (acc @ buffer)
                  (gfs\<lparr>calls := calls gfs @ [ReadCall]\<rparr>) = Some out"
    proof (cases "buffer = []")
      case True
      with 1(2) show ?thesis by (simp add: Read_def rd)
    next
      case False
      with 1(2) len show ?thesis by (simp add: Read_def rd)
    qed
    from 1(1)[OF step] obtain n
      where n1: "\<forall>i<n. quiet gfsFile (k + 1 + i)" and n2: "\<not> quiet gfsFile (k + 1 + n)"
      by blast
    have "\<forall>i<Suc n. quiet gfsFile (k + i)"
    proof (intro allI impI)
      fix i assume i: "i < Suc n"
      show "quiet gfsFile (k + i)"
      proof (cases i)
        case 0
        then show ?thesis using True by simp
      next
        case (Suc j)
        then have "j < n" using i by simp
        then have "quiet gfsFile (k + 1 + j)" using n1 by blast
        then show ?thesis using Suc by simp
      qed
    qed
    moreover have "\<not> quiet gfsFile (k + Suc n)" using n2 by simp
    ultimately have "(\<forall>i<Suc n. quiet gfsFile (k + i)) \<and> \<not> quiet gfsFile (k + Suc n)"
      by simp
    then show ?thesis by (rule exI)
  qed
qed

section \<open>What getFile returns\<close>

lemma getFile_open_fails:
  "resolved gfs field key = Inl e \<Longrightarrow>
   getFile gfs key field =
     Some (Return (([], [], Some e), gfs\<lparr>calls := calls gfs @ [open_call field key]\<rparr>))"
  by (cases "field = ''_id''")
     (simp_all add: getFile_def resolved_def open_call_def OpenId_def Open_def)

lemma getFile_after_open:
  "resolved gfs field key = Inr gfsFile \<Longrightarrow>
   getFile gfs key field =
     (case readLoop gfsFile 0 [] (gfs\<lparr>calls := calls gfs @ [open_call field key]\<rparr>) of
        None \<Rightarrow> None
      | Some Panic \<Rightarrow> Some Panic
      | Some (Return (buf, gfs2)) \<Rightarrow> Some (Return ((buf, gf_name gfsFile, None), gfs2)))"
  by (cases "field = ''_id''")
     (simp_all add: getFile_def resolved_def open_call_def OpenId_def Open_def Name_def
           split: option.splits outcome.splits prod.splits)

lemma getFile_returns:
  assumes "resolved gfs field key = Inr gfsFile"
    and "\<forall>i<n. quiet gfsFile i"
    and "snd (gf_reads gfsFile n) \<noteq> None"
    and "length (fst (gf_reads gfsFile n)) \<le> 4096"
  shows "getFile gfs key field =
     Some (Return ((delivered gfsFile 0 (Suc n), gf_name gfsFile, None),
                   gfs\<lparr>calls := calls gfs @ open_call field key # replicate (Suc n) ReadCall\<rparr>))"
proof -
  have "readLoop gfsFile 0 [] (gfs\<lparr>calls := calls gfs @ [open_call field key]\<rparr>) =
     Some (Return ([] @ delivered gfsFile 0 (Suc n),
       (gfs\<lparr>calls := calls gfs @ [open_call field key]\<rparr>)
         \<lparr>calls := calls (gfs\<lparr>calls := calls gfs @ [open_call field key]\<rparr>) @ replicate (Suc n) ReadCall\<rparr>))"
    using assms(2-4) by (intro readLoop_returns) simp_all
  then show ?thesis
    by (simp add: getFile_after_open[OF assms(1)])
qed

lemma getFile_panics:
  assumes "resolved gfs field key = Inr gfsFile"
    and "\<forall>i<n. quiet gfsFile i"
    and "length (fst (gf_reads gfsFile n)) > 4096"
  shows "getFile gfs key field = Some Panic"
proof -
  have "readLoop gfsFile 0 [] (gfs\<lparr>calls := calls gfs @ [open_call field key]\<rparr>) = Some Panic"
    using assms(2,3) by (intro readLoop_panics[where n = n]) simp_all
  then show ?thesis
    by (simp add: getFile_after_open[OF assms(1)])
qed

text \<open>Every way in which getFile returns.\<close>

lemma getFile_Return_cases:
  assumes "getFile gfs key field = Some (Return (res, gfs'))"
  shows "(\<exists>e. resolved gfs field key = Inl e \<and> res = ([], [], Some e) \<and>
              gfs' = gfs\<lparr>calls := calls gfs @ [open_call field key]\<rparr>) \<or>
         (\<exists>gfsFile n. resolved gfs field key = Inr gfsFile \<and> (\<forall>i<n. quiet gfsFile i) \<and>
              snd (gf_reads gfsFile n) \<noteq> None \<and> length (fst (gf_reads gfsFile n)) \<le> 4096 \<and>
              res = (delivered gfsFile 0 (Suc n), gf_name gfsFile, None) \<and>
              gfs' = gfs\<lparr>calls := calls gfs @ open_call field key # replicate (Suc n) ReadCall\<rparr>)"
proof (cases "resolved gfs field key")
  case (Inl e)
  then show ?thesis using assms by (simp add: getFile_open_fails)
next
  case (Inr gfsFile)
  from assms obtain out where
    "readLoop gfsFile 0 [] (gfs\<lparr>calls := calls gfs @ [open_call field key]\<rparr>) = Some out"
    by (auto simp: getFile_after_open[OF Inr] split: option.splits)
  from readLoop_Some_stops[OF this] obtain n
    where q: "\<forall>i<n. quiet gfsFile i" and nq: "\<not> quiet gfsFile n"
    by auto
  show ?thesis
  proof (cases "length (fst (gf_reads gfsFile n)) > 4096")
    case True
    then show ?thesis using assms getFile_panics[OF Inr q True] by simp
  next
    case False
    then have len: "length (fst (gf_reads gfsFile n)) \<le> 4096" by simp
    with nq have err: "snd (gf_reads gfsFile n) \<noteq> None" by (simp add: quiet_def)
    show ?thesis
      using assms getFile_returns[OF Inr q err len] Inr q err len by auto
  qed
qed

section \<open>Further facts about getFile\<close>

lemma delivered_script:
  assumes "\<forall>i<length cs. gf_reads gfsFile i = (cs ! i, None)"
    and "gf_reads gfsFile (length cs) = (lst, e)"
  shows "delivered gfsFile 0 (Suc (length cs)) = concat cs @ lst"
proof -
  have "map (\<lambda>i. fst (gf_reads gfsFile i)) [0..<length cs] = map (\<lambda>i. cs ! i) [0..<length cs]"
    using assms(1) by simp
  also have "\<dots> = cs" by (rule map_nth)
  finally have "map (\<lambda>i. fst (gf_reads gfsFile i)) [0..<length cs] = cs" .
  then show ?thesis using assms(2) by (simp add: delivered_def)
qed

lemma resolved_calls_update [simp]:
  "resolved (gfs\<lparr>calls := cs\<rparr>) field key = resolved gfs field key"
  by (simp add: resolved_def)

lemma getFile_field_irrelevant:
  "field \<noteq> ''_id'' \<Longrightarrow> getFile gfs key field = getFile gfs key ''filename''"
  by (simp add: getFile_def)

section \<open>What fileHandler returns\<close>

lemma fileHandler_short: 
  "length (URL_Path r) < length (HandlePath (Conf ggfs)) \<Longrightarrow> fileHandler ggfs w r = Some Panic"
  by (simp add: fileHandler_def)

lemma fileHandler_returns:
  assumes "length (HandlePath (Conf ggfs)) \<le> length (URL_Path r)"
    and "getFile (GFS ggfs) (drop (length (HandlePath (Conf ggfs))) (URL_Path r))
           (Field_conf (Conf ggfs)) = Some (Return ((data, filename, err), gfs'))"
  shows "fileHandler ggfs w r =
     Some (Return
       (ggfs\<lparr>GFS := gfs',
              Logger := Logger ggfs
                @ (if Debug (Conf ggfs)
                   then [LogString (drop (length (HandlePath (Conf ggfs))) (URL_Path r))] else [])
                @ (case err of None \<Rightarrow> [] | Some e \<Rightarrow> [LogError e])\<rparr>,
        w\<lparr>header := (header w)(''Content-Disposition'' \<mapsto>
                       [''attachment; filename='' @ [CHR 0x22] @ filename @ [CHR 0x22]]),
           status := (case status w of None \<Rightarrow> Some 200 | Some c \<Rightarrow> Some c),
           body := body w @ data\<rparr>))"
proof (cases "Debug (Conf ggfs)")
  case True
  then show ?thesis
    using assms
    by (cases err) (simp_all add: fileHandler_def Let_def Println_def Header_Set_def Write_def)
next
  case False
  then show ?thesis
    using assms
    by (cases err) (simp_all add: fileHandler_def Let_def Println_def Header_Set_def Write_def)
qed

lemma getFile_error_empty:
  "getFile gfs key field = Some (Return ((buf, name, Some e), gfs')) \<Longrightarrow> buf = [] \<and> name = []"
  using getFile_Return_cases[of gfs key field "(buf, name, Some e)" gfs'] by auto

section \<open>The example store, evaluated\<close>

lemma broken_bin_resolved: "resolved sample_store ''filename'' ''broken.bin'' = Inr broken_bin"
  by (simp add: resolved_def sample_store_def)

lemma broken_bin_quiet: "\<forall>i<1. quiet broken_bin i"
  by (simp add: quiet_def broken_bin_def)

lemma broken_bin_fails: "snd (gf_reads broken_bin 1) = Some (ErrOther ''connection reset'')"
  by (simp add: broken_bin_def)

lemma broken_bin_fits: "length (fst (gf_reads broken_bin 1)) \<le> 4096"
  by (simp add: broken_bin_def)

lemma broken_bin_delivered: "delivered broken_bin 0 (Suc 1) = [1, 2, 3]"
  by (simp add: delivered_def broken_bin_def)

lemma report_pdf_by_name: "resolved sample_store ''filename'' ''report.pdf'' = Inr report_pdf"
  by (simp add: resolved_def sample_store_def)

lemma report_pdf_by_id: "resolved sample_store ''_id'' ''64b2f1'' = Inr report_pdf"
  by (simp add: resolved_def sample_store_def)

lemma report_pdf_quiet: "\<forall>i<1. quiet report_pdf i"
  by (simp add: quiet_def report_pdf_def)

lemma report_pdf_ends: "snd (gf_reads report_pdf 1) = Some EOF"
  by (simp add: report_pdf_def)

lemma report_pdf_fits: "length (fst (gf_reads report_pdf 1)) \<le> 4096"
  by (simp add: report_pdf_def)

lemma report_pdf_delivered: "delivered report_pdf 0 (Suc 1) = [1, 2, 3, 4, 5]"
  by (simp add: delivered_def report_pdf_def)

lemma missing_by_name: "resolved sample_store ''filename'' ''missing'' = Inl ErrNotFound"
  by (simp add: resolved_def sample_store_def)

lemma sample_store_calls: "calls sample_store = []"
  by (simp add: sample_store_def)

lemma broken_bin_retrieved:
  "getFile sample_store ''broken.bin'' ''filename'' =
     Some (Return (([1, 2, 3], ''broken.bin'', None),
                   sample_store\<lparr>calls := [OpenCall ''broken.bin'', ReadCall, ReadCall]\<rparr>))"
proof -
  have e: "snd (gf_reads broken_bin 1) \<noteq> None" unfolding broken_bin_fails by simp
  have n: "gf_name broken_bin = ''broken.bin''" by (simp add: broken_bin_def)
  have o: "open_call ''filename'' ''broken.bin'' = OpenCall ''broken.bin''"
    by (simp add: open_call_def)
  show ?thesis
    unfolding getFile_returns[OF broken_bin_resolved broken_bin_quiet e broken_bin_fits]
      broken_bin_delivered n sample_store_calls o
    by (simp add: numeral_2_eq_2)
qed

lemma report_pdf_retrieved:
  "getFile sample_store ''report.pdf'' ''filename'' =
     Some (Return (([1, 2, 3, 4, 5], ''report.pdf'', None),
                   sample_store\<lparr>calls := [OpenCall ''report.pdf'', ReadCall, ReadCall]\<rparr>))"
proof -
  have e: "snd (gf_reads report_pdf 1) \<noteq> None" unfolding report_pdf_ends by simp
  have n: "gf_name report_pdf = ''report.pdf''" by (simp add: report_pdf_def)
  have o: "open_call ''filename'' ''report.pdf'' = OpenCall ''report.pdf''"
    by (simp add: open_call_def)
  show ?thesis
    unfolding getFile_returns[OF report_pdf_by_name report_pdf_quiet e report_pdf_fits]
      report_pdf_delivered n sample_store_calls o
    by (simp add: numeral_2_eq_2)
qed

lemma missing_retrieved:
  "getFile sample_store ''missing'' ''filename'' =
     Some (Return (([], [], Some ErrNotFound),
                   sample_store\<lparr>calls := [OpenCall ''missing'']\<rparr>))"
  unfolding getFile_open_fails[OF missing_by_name] sample_store_calls
  by (simp add: open_call_def)

lemma report_pdf_retrieved_by_id:
  "getFile sample_store ''64b2f1'' ''_id'' =
     Some (Return (([1, 2, 3, 4, 5], ''report.pdf'', None),
                   sample_store\<lparr>calls := [OpenIdCall ''64b2f1'', ReadCall, ReadCall]\<rparr>))"
proof -
  have e: "snd (gf_reads report_pdf 1) \<noteq> None" unfolding report_pdf_ends by simp
  have n: "gf_name report_pdf = ''report.pdf''" by (simp add: report_pdf_def)
  have o: "open_call ''_id'' ''64b2f1'' = OpenIdCall ''64b2f1''"
    by (simp add: open_call_def)
  show ?thesis
    unfolding getFile_returns[OF report_pdf_by_id report_pdf_quiet e report_pdf_fits]
      report_pdf_delivered n sample_store_calls o
    by (simp add: numeral_2_eq_2)
qed

lemma report_pdf_retrieved_other_field:
  "field \<noteq> ''_id'' \<Longrightarrow> getFile sample_store ''report.pdf'' field =
     Some (Return (([1, 2, 3, 4, 5], ''report.pdf'', None),
                   sample_store\<lparr>calls := [OpenCall ''report.pdf'', ReadCall, ReadCall]\<rparr>))"
  using getFile_field_irrelevant[of field sample_store "''report.pdf''"] report_pdf_retrieved
  by simp

lemma sample_ggfs_simps:
  "GFS sample_ggfs = sample_store" "Logger sample_ggfs = []"
  "HandlePath (Conf sample_ggfs) = ''/f/''" "Field_conf (Conf sample_ggfs) = ''filename''"
  "Debug (Conf sample_ggfs) = True"
  by (simp_all add: sample_ggfs_def sample_conf_def)

lemma fresh_writer_simps: "status fresh_writer = None" "body fresh_writer = []"
  by (simp_all add: fresh_writer_def)

section \<open>The claims\<close>

text \<open>
  C1, as the specification states it: when the object is opened and a read fails with an
  error other than end of stream, \<open>getFile\<close> returns a non-nil error, an empty buffer and
  an empty name. On the code this is false. \<open>broken.bin\<close> is opened by name, its first
  read delivers three bytes and its second read fails with a connection error: \<open>getFile\<close>
  returns the three bytes, the name of the object and a nil error.
\<close>

theorem getFile_read_error_counterexample:
  "byName sample_store ''broken.bin'' = Inr broken_bin \<and>
   gf_reads broken_bin 1 = ([], Some (ErrOther ''connection reset'')) \<and>
   getFile sample_store ''broken.bin'' ''filename'' =
     Some (Return (([1, 2, 3], ''broken.bin'', None),
                   sample_store\<lparr>calls := [OpenCall ''broken.bin'', ReadCall, ReadCall]\<rparr>))"
proof -
  have b: "byName sample_store ''broken.bin'' = Inr broken_bin"
    by (simp add: sample_store_def)
  have e: "gf_reads broken_bin 1 = ([], Some (ErrOther ''connection reset''))"
    by (simp add: broken_bin_def)
  show ?thesis using b e broken_bin_retrieved by simp
qed

text \<open>
  C1, amended: when the object is opened and, after any number of successful reads, a
  read fails with an error other than end of stream (every read staying within the
  buffer), \<open>getFile\<close> returns, and what it returns holds all the bytes delivered up to
  and including the failing read, and the logical name of the object. Nothing is said
  here about the error value that comes with them.
\<close>

theorem getFile_read_error_surfaces_content:
  assumes "resolved gfs field key = Inr gfsFile"
    and "\<forall>i<n. quiet gfsFile i"
    and "snd (gf_reads gfsFile n) = Some e" and "e \<noteq> EOF"
    and "length (fst (gf_reads gfsFile n)) \<le> 4096"
  shows "\<exists>err gfs'. getFile gfs key field =
           Some (Return ((delivered gfsFile 0 (Suc n), gf_name gfsFile, err), gfs'))"
  using getFile_returns[OF assms(1,2) _ assms(5)] assms(3) by simp

theorem getFile_read_error_surfaces_content_witness:
  "resolved sample_store ''filename'' ''broken.bin'' = Inr broken_bin \<and>
   quiet broken_bin 0 \<and>
   snd (gf_reads broken_bin 1) = Some (ErrOther ''connection reset'') \<and>
   ErrOther ''connection reset'' \<noteq> EOF \<and>
   length (fst (gf_reads broken_bin 1)) \<le> 4096 \<and>
   (\<exists>err gfs'. getFile sample_store ''broken.bin'' ''filename'' =
           Some (Return ((delivered broken_bin 0 (Suc 1), gf_name broken_bin, err), gfs')))"
proof -
  have ne: "ErrOther ''connection reset'' \<noteq> EOF" by simp
  show ?thesis
    using getFile_read_error_surfaces_content
            [OF broken_bin_resolved broken_bin_quiet broken_bin_fails ne broken_bin_fits]
          broken_bin_resolved broken_bin_quiet broken_bin_fails ne broken_bin_fits
    by simp
qed

text \<open>
  C2: for every content, delivered by successive reads in chunks \<open>cs\<close> (each no longer
  than the buffer) and closed by a read that reports end of stream together with a last
  chunk \<open>lst\<close> (empty when end of stream comes alone), \<open>getFile\<close> returns a buffer that
  is the content, byte for byte, and has its length: the bytes that arrive with end of
  stream are appended before the loop ends.
\<close>

theorem getFile_drains_to_end_of_stream:
  assumes "resolved gfs field key = Inr gfsFile"
    and "\<forall>i<length cs. gf_reads gfsFile i = (cs ! i, None)"
    and "gf_reads gfsFile (length cs) = (lst, Some EOF)"
    and "\<forall>c\<in>set cs. length c \<le> 4096" and "length lst \<le> 4096"
    and "content = concat cs @ lst" and "length content = n"
  shows "\<exists>buf gfs'. getFile gfs key field = Some (Return ((buf, gf_name gfsFile, None), gfs')) \<and>
           buf = content \<and> length buf = n"
proof -
  have q: "\<forall>i<length cs. quiet gfsFile i"
    using assms(2,4) by (simp add: quiet_def)
  have e: "snd (gf_reads gfsFile (length cs)) \<noteq> None" using assms(3) by simp
  have l: "length (fst (gf_reads gfsFile (length cs))) \<le> 4096" using assms(3,5) by simp
  have d: "delivered gfsFile 0 (Suc (length cs)) = content"
    using delivered_script[OF assms(2,3)] assms(6) by simp
  show ?thesis
    using getFile_returns[OF assms(1) q e l] d assms(7) by simp
qed

theorem getFile_drains_to_end_of_stream_witness:
  "resolved sample_store ''_id'' ''64b2f1'' = Inr report_pdf \<and>
   gf_reads report_pdf 0 = ([1, 2, 3], None) \<and>
   gf_reads report_pdf 1 = ([4, 5], Some EOF) \<and>
   length [1, 2, 3 :: byte] \<le> 4096 \<and> length [4, 5 :: byte] \<le> 4096 \<and>
   [1, 2, 3, 4, 5 :: byte] = concat [[1, 2, 3]] @ [4, 5] \<and> length [1, 2, 3, 4, 5 :: byte] = 5 \<and>
   (\<exists>buf gfs'. getFile sample_store ''64b2f1'' ''_id'' =
        Some (Return ((buf, gf_name report_pdf, None), gfs')) \<and>
        buf = [1, 2, 3, 4, 5] \<and> length buf = 5)"
proof -
  have a: "\<forall>i<length [[1, 2, 3 :: byte]]. gf_reads report_pdf i = ([[1, 2, 3]] ! i, None)"
    by (simp add: report_pdf_def)
  have b: "gf_reads report_pdf (length [[1, 2, 3 :: byte]]) = ([4, 5], Some EOF)"
    by (simp add: report_pdf_def)
  have c: "\<forall>c\<in>set [[1, 2, 3 :: byte]]. length c \<le> 4096" by simp
  have d: "length [4, 5 :: byte] \<le> 4096" by simp
  have e: "[1, 2, 3, 4, 5 :: byte] = concat [[1, 2, 3]] @ [4, 5]" by simp
  have f: "length [1, 2, 3, 4, 5 :: byte] = 5" by simp
  have g: "gf_reads report_pdf 0 = ([1, 2, 3], None)" "gf_reads report_pdf 1 = ([4, 5], Some EOF)"
    by (simp_all add: report_pdf_def)
  show ?thesis
    using getFile_drains_to_end_of_stream[OF report_pdf_by_id a b c d e f]
          report_pdf_by_id g
    by simp
qed

text \<open>
  C3 asks that the handle be closed exactly once on every path after a successful open.
  The code does not do so. Evaluated on \<open>report.pdf\<close> (drained to end of stream) and on
  \<open>broken.bin\<close> (a read fails), \<open>getFile\<close> returns after the calls Open, Read, Read:
  \<open>Close\<close> is called on neither path.
\<close>

theorem getFile_close_not_invoked:
  "getFile sample_store ''report.pdf'' ''filename'' =
     Some (Return (([1, 2, 3, 4, 5], ''report.pdf'', None),
                   sample_store\<lparr>calls := [OpenCall ''report.pdf'', ReadCall, ReadCall]\<rparr>)) \<and>
   count_list [OpenCall ''report.pdf'', ReadCall, ReadCall] CloseCall = 0 \<and>
   getFile sample_store ''broken.bin'' ''filename'' =
     Some (Return (([1, 2, 3], ''broken.bin'', None),
                   sample_store\<lparr>calls := [OpenCall ''broken.bin'', ReadCall, ReadCall]\<rparr>)) \<and>
   count_list [OpenCall ''broken.bin'', ReadCall, ReadCall] CloseCall = 0"
  using report_pdf_retrieved broken_bin_retrieved by simp

text \<open>
  C4: a retrieval that returns has made exactly one open call on the store, \<open>OpenId key\<close>
  when the field is \<open>_id\<close> and \<open>Open key\<close> otherwise, followed by reads only; and what it
  returns comes from that lookup alone: its error when the lookup fails, the name of the
  object it found otherwise.
\<close>

theorem getFile_one_resolution:
  assumes "getFile gfs key field = Some (Return ((buf, name, err), gfs'))"
  shows "(\<exists>n. calls gfs' = calls gfs @
                (if field = ''_id'' then OpenIdCall key else OpenCall key) # replicate n ReadCall) \<and>
         (case (if field = ''_id'' then byId gfs key else byName gfs key) of
            Inl e \<Rightarrow> buf = [] \<and> name = [] \<and> err = Some e
          | Inr gfsFile \<Rightarrow> name = gf_name gfsFile \<and> err = None)"
proof -
  from getFile_Return_cases[OF assms] show ?thesis
  proof (elim disjE exE conjE)
    fix e
    assume "resolved gfs field key = Inl e" "(buf, name, err) = ([], [], Some e)"
      "gfs' = gfs\<lparr>calls := calls gfs @ [open_call field key]\<rparr>"
    then show ?thesis
      by (auto simp: resolved_def open_call_def intro: exI[of _ 0])
  next
    fix gfsFile n
    assume "resolved gfs field key = Inr gfsFile"
      "(buf, name, err) = (delivered gfsFile 0 (Suc n), gf_name gfsFile, None)"
      "gfs' = gfs\<lparr>calls := calls gfs @ open_call field key # replicate (Suc n) ReadCall\<rparr>"
    then show ?thesis
      by (auto simp: resolved_def open_call_def simp del: replicate_Suc)
  qed
qed

theorem getFile_one_resolution_witness:
  "getFile sample_store ''64b2f1'' ''_id'' =
     Some (Return (([1, 2, 3, 4, 5], ''report.pdf'', None),
                   sample_store\<lparr>calls := [OpenIdCall ''64b2f1'', ReadCall, ReadCall]\<rparr>)) \<and>
   (\<exists>n. calls (sample_store\<lparr>calls := [OpenIdCall ''64b2f1'', ReadCall, ReadCall]\<rparr>) =
        calls sample_store @ OpenIdCall ''64b2f1'' # replicate n ReadCall) \<and>
   byId sample_store ''64b2f1'' = Inr report_pdf \<and>
   byName sample_store ''64b2f1'' = Inr named_like_id \<and>
   ''report.pdf'' = gf_name report_pdf \<and> ''report.pdf'' \<noteq> gf_name named_like_id"
proof -
  have a: "byId sample_store ''64b2f1'' = Inr report_pdf"
    and b: "byName sample_store ''64b2f1'' = Inr named_like_id"
    by (simp_all add: sample_store_def)
  have c: "''report.pdf'' \<noteq> gf_name named_like_id" by (simp add: named_like_id_def)
  show ?thesis
    using getFile_one_resolution[OF report_pdf_retrieved_by_id] report_pdf_retrieved_by_id a b c
    by simp
qed

text \<open>
  C7: a retrieval that returns, repeated on the store as the first retrieval left it,
  returns the same buffer, the same name and the same error.
\<close>

theorem getFile_idempotent:
  assumes "getFile gfs key field = Some (Return ((buf, name, err), gfs'))"
  shows "\<exists>gfs''. getFile gfs' key field = Some (Return ((buf, name, err), gfs''))"
proof -
  from getFile_Return_cases[OF assms] show ?thesis
  proof (elim disjE exE conjE)
    fix e
    assume r: "resolved gfs field key = Inl e" and res: "(buf, name, err) = ([], [], Some e)"
      and g: "gfs' = gfs\<lparr>calls := calls gfs @ [open_call field key]\<rparr>"
    have "resolved gfs' field key = Inl e" using r g by simp
    from getFile_open_fails[OF this] res show ?thesis by simp
  next
    fix gfsFile n
    assume r: "resolved gfs field key = Inr gfsFile" and q: "\<forall>i<n. quiet gfsFile i"
      and e: "snd (gf_reads gfsFile n) \<noteq> None" and l: "length (fst (gf_reads gfsFile n)) \<le> 4096"
      and res: "(buf, name, err) = (delivered gfsFile 0 (Suc n), gf_name gfsFile, None)"
      and g: "gfs' = gfs\<lparr>calls := calls gfs @ open_call field key # replicate (Suc n) ReadCall\<rparr>"
    have "resolved gfs' field key = Inr gfsFile" using r g by simp
    from getFile_returns[OF this q e l] res show ?thesis by simp
  qed
qed

theorem getFile_idempotent_witness:
  "getFile sample_store ''report.pdf'' ''filename'' =
     Some (Return (([1, 2, 3, 4, 5], ''report.pdf'', None),
                   sample_store\<lparr>calls := [OpenCall ''report.pdf'', ReadCall, ReadCall]\<rparr>)) \<and>
   (\<exists>gfs''. getFile (sample_store\<lparr>calls := [OpenCall ''report.pdf'', ReadCall, ReadCall]\<rparr>)
                ''report.pdf'' ''filename'' =
              Some (Return (([1, 2, 3, 4, 5], ''report.pdf'', None), gfs'')))"
  using getFile_idempotent[OF report_pdf_retrieved] report_pdf_retrieved by simp

text \<open>
  C8: an error returned by \<open>getFile\<close> is the error of the open step; and once the
  object is opened, whatever error ends the reads (end of stream or any other),
  \<open>getFile\<close> returns with a nil error.
\<close>

theorem getFile_error_only_from_open:
  "(getFile gfs key field = Some (Return ((buf, name, Some e), gfs')) \<longrightarrow>
      (if field = ''_id'' then byId gfs key else byName gfs key) = Inl e) \<and>
   ((if field = ''_id'' then byId gfs key else byName gfs key) = Inr gfsFile \<and>
    (\<forall>i<n. quiet gfsFile i) \<and> snd (gf_reads gfsFile n) \<noteq> None \<and>
    length (fst (gf_reads gfsFile n)) \<le> 4096 \<longrightarrow>
      (\<exists>buf' gfs''. getFile gfs key field = Some (Return ((buf', gf_name gfsFile, None), gfs''))))"
proof (intro conjI impI)
  assume "getFile gfs key field = Some (Return ((buf, name, Some e), gfs'))"
  from getFile_Return_cases[OF this]
  show "(if field = ''_id'' then byId gfs key else byName gfs key) = Inl e"
    by (auto simp: resolved_def)
next
  assume a: "(if field = ''_id'' then byId gfs key else byName gfs key) = Inr gfsFile \<and>
    (\<forall>i<n. quiet gfsFile i) \<and> snd (gf_reads gfsFile n) \<noteq> None \<and>
    length (fst (gf_reads gfsFile n)) \<le> 4096"
  then have r: "resolved gfs field key = Inr gfsFile" by (simp add: resolved_def)
  from getFile_returns[OF r] a
  show "\<exists>buf' gfs''. getFile gfs key field = Some (Return ((buf', gf_name gfsFile, None), gfs''))"
    by blast
qed

theorem getFile_error_only_from_open_witness:
  "getFile sample_store ''missing'' ''filename'' =
     Some (Return (([], [], Some ErrNotFound), sample_store\<lparr>calls := [OpenCall ''missing'']\<rparr>)) \<and>
   byName sample_store ''missing'' = Inl ErrNotFound \<and>
   byName sample_store ''broken.bin'' = Inr broken_bin \<and>
   quiet broken_bin 0 \<and> snd (gf_reads broken_bin 1) \<noteq> None \<and>
   length (fst (gf_reads broken_bin 1)) \<le> 4096 \<and>
   (\<exists>buf' gfs''. getFile sample_store ''broken.bin'' ''filename'' =
        Some (Return ((buf', gf_name broken_bin, None), gfs'')))"
proof -
  have e: "snd (gf_reads broken_bin 1) \<noteq> None" unfolding broken_bin_fails by simp
  have b: "(if ''filename'' = ''_id'' then byId sample_store ''broken.bin''
            else byName sample_store ''broken.bin'') = Inr broken_bin"
    by (simp add: sample_store_def)
  have first: "byName sample_store ''missing'' = Inl ErrNotFound"
    using getFile_error_only_from_open
            [of sample_store "''missing''" "''filename''" "[]" "[]" ErrNotFound
                "sample_store\<lparr>calls := [OpenCall ''missing'']\<rparr>"]
          missing_retrieved
    by simp
  have second: "\<exists>buf' gfs''. getFile sample_store ''broken.bin'' ''filename'' =
        Some (Return ((buf', gf_name broken_bin, None), gfs''))"
    using getFile_error_only_from_open
            [of sample_store "''broken.bin''" "''filename''" _ _ _ _ broken_bin 1]
          b broken_bin_quiet e broken_bin_fits
    by blast
  show ?thesis
    using first second missing_retrieved b broken_bin_quiet e broken_bin_fits by simp
qed

text \<open>
  C10: with any configured field other than the exact string \<open>_id\<close>, \<open>getFile\<close> does
  what it does for \<open>filename\<close>, and its one open call on the store is \<open>Open key\<close>.
\<close>

theorem getFile_other_field_opens_by_name:
  assumes "field \<noteq> ''_id''"
    and "getFile gfs key field = Some (Return (res, gfs'))"
  shows "getFile gfs key field = getFile gfs key ''filename'' \<and>
         (\<exists>n. calls gfs' = calls gfs @ OpenCall key # replicate n ReadCall)"
proof
  show "getFile gfs key field = getFile gfs key ''filename''"
    using assms(1) by (rule getFile_field_irrelevant)
next
  from getFile_Return_cases[OF assms(2)]
  show "\<exists>n. calls gfs' = calls gfs @ OpenCall key # replicate n ReadCall"
  proof (elim disjE exE conjE)
    fix e assume "gfs' = gfs\<lparr>calls := calls gfs @ [open_call field key]\<rparr>"
    then show ?thesis using assms(1) by (auto simp: open_call_def intro: exI[of _ 0])
  next
    fix n assume "gfs' = gfs\<lparr>calls := calls gfs @ open_call field key # replicate (Suc n) ReadCall\<rparr>"
    then show ?thesis using assms(1) by (auto simp: open_call_def simp del: replicate_Suc)
  qed
qed

theorem getFile_other_field_opens_by_name_witness:
  "''_ID'' \<noteq> ''_id'' \<and> ''id'' \<noteq> ''_id'' \<and> '''' \<noteq> ''_id'' \<and>
   getFile sample_store ''report.pdf'' ''_ID'' = getFile sample_store ''report.pdf'' ''filename'' \<and>
   getFile sample_store ''report.pdf'' ''id'' = getFile sample_store ''report.pdf'' ''filename'' \<and>
   getFile sample_store ''report.pdf'' '''' = getFile sample_store ''report.pdf'' ''filename'' \<and>
   getFile sample_store ''report.pdf'' ''_ID'' =
     Some (Return (([1, 2, 3, 4, 5], ''report.pdf'', None),
                   sample_store\<lparr>calls := [OpenCall ''report.pdf'', ReadCall, ReadCall]\<rparr>)) \<and>
   (\<exists>n. calls (sample_store\<lparr>calls := [OpenCall ''report.pdf'', ReadCall, ReadCall]\<rparr>) =
        calls sample_store @ OpenCall ''report.pdf'' # replicate n ReadCall)"
proof -
  have a: "''_ID'' \<noteq> ''_id''" and b: "''id'' \<noteq> ''_id''" and c: "'''' \<noteq> ''_id''"
    by simp_all
  show ?thesis
    using getFile_other_field_opens_by_name[OF a report_pdf_retrieved_other_field[OF a]]
          getFile_other_field_opens_by_name[OF b report_pdf_retrieved_other_field[OF b]]
          getFile_other_field_opens_by_name[OF c report_pdf_retrieved_other_field[OF c]]
          report_pdf_retrieved_other_field[OF a] a b c
    by simp
qed

text \<open>
  C5, as the specification states it: on every request whose retrieval fails, the
  handler logs the error and completes the response with status 200 and an empty body.
  On the code this is false for a retrieval that fails in the middle of the reads. The
  request for \<open>/f/broken.bin\<close> opens \<open>broken.bin\<close>, whose first read delivers three
  bytes and whose second read fails with a connection error: the handler answers with
  status 200 and a body of those three bytes, and the only line logged is the path
  printed for debugging.
\<close>

theorem fileHandler_read_failure_counterexample:
  "byName sample_store ''broken.bin'' = Inr broken_bin \<and>
   gf_reads broken_bin 1 = ([], Some (ErrOther ''connection reset'')) \<and>
   fileHandler sample_ggfs fresh_writer \<lparr>URL_Path = ''/f/broken.bin''\<rparr> =
     Some (Return
       (sample_ggfs\<lparr>GFS := sample_store\<lparr>calls := [OpenCall ''broken.bin'', ReadCall, ReadCall]\<rparr>,
                     Logger := [LogString ''broken.bin'']\<rparr>,
        fresh_writer\<lparr>header := [''Content-Disposition'' \<mapsto>
                         [''attachment; filename='' @ [CHR 0x22] @ ''broken.bin'' @ [CHR 0x22]]],
                      status := Some 200,
                      body := [1, 2, 3]\<rparr>))"
proof -
  have b: "byName sample_store ''broken.bin'' = Inr broken_bin"
    by (simp add: sample_store_def)
  have e: "gf_reads broken_bin 1 = ([], Some (ErrOther ''connection reset''))"
    by (simp add: broken_bin_def)
  have a: "length (HandlePath (Conf sample_ggfs))
             \<le> length (URL_Path \<lparr>URL_Path = ''/f/broken.bin''\<rparr>)"
    by (simp add: sample_ggfs_simps)
  have g: "getFile (GFS sample_ggfs)
             (drop (length (HandlePath (Conf sample_ggfs)))
                (URL_Path \<lparr>URL_Path = ''/f/broken.bin''\<rparr>))
             (Field_conf (Conf sample_ggfs)) =
     Some (Return (([1, 2, 3], ''broken.bin'', None),
                   sample_store\<lparr>calls := [OpenCall ''broken.bin'', ReadCall, ReadCall]\<rparr>))"
    using broken_bin_retrieved by (simp add: sample_ggfs_simps)
  have h: "fileHandler sample_ggfs fresh_writer \<lparr>URL_Path = ''/f/broken.bin''\<rparr> =
     Some (Return
       (sample_ggfs\<lparr>GFS := sample_store\<lparr>calls := [OpenCall ''broken.bin'', ReadCall, ReadCall]\<rparr>,
                     Logger := [LogString ''broken.bin'']\<rparr>,
        fresh_writer\<lparr>header := [''Content-Disposition'' \<mapsto>
                         [''attachment; filename='' @ [CHR 0x22] @ ''broken.bin'' @ [CHR 0x22]]],
                      status := Some 200,
                      body := [1, 2, 3]\<rparr>))"
    unfolding fileHandler_returns[OF a g]
    by (simp add: sample_ggfs_simps fresh_writer_def)
  show ?thesis using b e h by simp
qed

text \<open>
  C5, amended: on a fresh response writer, for a path at least as long as the prefix,
  whatever \<open>getFile\<close> returns, the handler completes the response with status 200 and
  a body that is exactly the buffer \<open>getFile\<close> returned; and when \<open>getFile\<close> returns an
  error \<open>e\<close>, that body is empty and \<open>e\<close> is the last line logged (after the path,
  when debugging). A retrieval whose read fails in the middle comes back from
  \<open>getFile\<close> with the bytes read so far, so the body carries them; nothing is said
  here about what is logged for it.
\<close>

theorem fileHandler_failure_still_200:
  assumes "length (HandlePath (Conf ggfs)) \<le> length (URL_Path r)"
    and "status w = None" and "body w = []"
    and "getFile (GFS ggfs) (drop (length (HandlePath (Conf ggfs))) (URL_Path r))
           (Field_conf (Conf ggfs)) = Some (Return ((data, filename, err), gfs'))"
  shows "\<exists>ggfs' w'. fileHandler ggfs w r = Some (Return (ggfs', w')) \<and>
           status w' = Some 200 \<and>
           body w' = data \<and>
           (err = Some e \<longrightarrow>
              body w' = [] \<and>
              Logger ggfs' =
                (if Debug (Conf ggfs)
                 then Logger ggfs @ [LogString (drop (length (HandlePath (Conf ggfs))) (URL_Path r))]
                 else Logger ggfs) @ [LogError e])"
proof (cases "err = Some e")
  case True
  with assms(4) have "data = []" using getFile_error_empty by blast
  then show ?thesis
    unfolding fileHandler_returns[OF assms(1,4)] using assms(2,3) True by simp
next
  case False
  then show ?thesis
    unfolding fileHandler_returns[OF assms(1,4)] using assms(2,3) by simp
qed

theorem fileHandler_failure_still_200_witness:
  "length (HandlePath (Conf sample_ggfs)) \<le> length (URL_Path \<lparr>URL_Path = ''/f/missing''\<rparr>) \<and>
   status fresh_writer = None \<and> body fresh_writer = [] \<and>
   getFile (GFS sample_ggfs) ''missing'' (Field_conf (Conf sample_ggfs)) =
     Some (Return (([], [], Some ErrNotFound), sample_store\<lparr>calls := [OpenCall ''missing'']\<rparr>)) \<and>
   (\<exists>ggfs' w'. fileHandler sample_ggfs fresh_writer \<lparr>URL_Path = ''/f/missing''\<rparr> =
        Some (Return (ggfs', w')) \<and>
      status w' = Some 200 \<and> body w' = [] \<and>
      Logger ggfs' = [LogString ''missing'', LogError ErrNotFound])"
proof -
  have a: "length (HandlePath (Conf sample_ggfs)) \<le> length (URL_Path \<lparr>URL_Path = ''/f/missing''\<rparr>)"
    by (simp add: sample_ggfs_simps)
  have g: "getFile (GFS sample_ggfs)
             (drop (length (HandlePath (Conf sample_ggfs))) (URL_Path \<lparr>URL_Path = ''/f/missing''\<rparr>))
             (Field_conf (Conf sample_ggfs)) =
     Some (Return (([], [], Some ErrNotFound), sample_store\<lparr>calls := [OpenCall ''missing'']\<rparr>))"
    using missing_retrieved by (simp add: sample_ggfs_simps)
  show ?thesis
    using fileHandler_failure_still_200[OF a fresh_writer_simps g, of ErrNotFound] a g
    by (simp add: sample_ggfs_simps fresh_writer_simps)
qed

text \<open>
  C6: when the path is the prefix followed by \<open>key\<close>, the handler retrieves exactly
  \<open>key\<close> (it is the line logged when debugging, and the store is left as \<open>getFile\<close> on
  \<open>key\<close> leaves it); and when that retrieval returns without error, the header
  \<open>Content-Disposition\<close> is set to \<open>attachment; filename=\<close> followed by the resolved
  name between double quotes (character 0x22), and the whole buffer is appended to the
  body.
\<close>

theorem fileHandler_serves_retrieved_file:
  assumes "URL_Path r = HandlePath (Conf ggfs) @ key"
    and "getFile (GFS ggfs) key (Field_conf (Conf ggfs)) =
           Some (Return ((data, filename, None), gfs'))"
  shows "\<exists>ggfs' w'. fileHandler ggfs w r = Some (Return (ggfs', w')) \<and>
           GFS ggfs' = gfs' \<and>
           Logger ggfs' = (if Debug (Conf ggfs) then Logger ggfs @ [LogString key] else Logger ggfs) \<and>
           header w' ''Content-Disposition'' =
             Some [''attachment; filename='' @ [CHR 0x22] @ filename @ [CHR 0x22]] \<and>
           body w' = body w @ data"
proof -
  have len: "length (HandlePath (Conf ggfs)) \<le> length (URL_Path r)"
    using assms(1) by simp
  have key: "drop (length (HandlePath (Conf ggfs))) (URL_Path r) = key"
    using assms(1) by simp
  have g: "getFile (GFS ggfs) (drop (length (HandlePath (Conf ggfs))) (URL_Path r))
           (Field_conf (Conf ggfs)) = Some (Return ((data, filename, None), gfs'))"
    using assms(2) key by simp
  show ?thesis
    unfolding fileHandler_returns[OF len g] key by simp
qed

theorem fileHandler_serves_retrieved_file_witness:
  "URL_Path \<lparr>URL_Path = ''/f/report.pdf''\<rparr> = HandlePath (Conf sample_ggfs) @ ''report.pdf'' \<and>
   getFile (GFS sample_ggfs) ''report.pdf'' (Field_conf (Conf sample_ggfs)) =
     Some (Return (([1, 2, 3, 4, 5], ''report.pdf'', None),
                   sample_store\<lparr>calls := [OpenCall ''report.pdf'', ReadCall, ReadCall]\<rparr>)) \<and>
   (\<exists>ggfs' w'. fileHandler sample_ggfs fresh_writer \<lparr>URL_Path = ''/f/report.pdf''\<rparr> =
        Some (Return (ggfs', w')) \<and>
      GFS ggfs' = sample_store\<lparr>calls := [OpenCall ''report.pdf'', ReadCall, ReadCall]\<rparr> \<and>
      Logger ggfs' = [LogString ''report.pdf''] \<and>
      header w' ''Content-Disposition'' =
        Some [''attachment; filename='' @ [CHR 0x22] @ ''report.pdf'' @ [CHR 0x22]] \<and>
      body w' = [1, 2, 3, 4, 5])"
proof -
  have a: "URL_Path \<lparr>URL_Path = ''/f/report.pdf''\<rparr> = HandlePath (Conf sample_ggfs) @ ''report.pdf''"
    by (simp add: sample_ggfs_simps)
  have g: "getFile (GFS sample_ggfs) ''report.pdf'' (Field_conf (Conf sample_ggfs)) =
     Some (Return (([1, 2, 3, 4, 5], ''report.pdf'', None),
                   sample_store\<lparr>calls := [OpenCall ''report.pdf'', ReadCall, ReadCall]\<rparr>))"
    using report_pdf_retrieved by (simp add: sample_ggfs_simps)
  show ?thesis
    using fileHandler_serves_retrieved_file[OF a g, of fresh_writer] a g
    by (simp add: sample_ggfs_simps fresh_writer_simps)
qed

text \<open>
  C9: when the path is shorter than the prefix, the slice expression panics and the
  handler produces no response; when the path is at least as long as the prefix and the
  retrieval returns, the handler returns.
\<close>

theorem fileHandler_short_path_panics:
  "(length (URL_Path r) < length (HandlePath (Conf ggfs)) \<longrightarrow>
      fileHandler ggfs w r = Some Panic) \<and>
   (length (HandlePath (Conf ggfs)) \<le> length (URL_Path r) \<and>
    getFile (GFS ggfs) (drop (length (HandlePath (Conf ggfs))) (URL_Path r))
      (Field_conf (Conf ggfs)) = Some (Return res) \<longrightarrow>
      (\<exists>done. fileHandler ggfs w r = Some (Return done)))"
proof (intro conjI impI)
  assume "length (URL_Path r) < length (HandlePath (Conf ggfs))"
  then show "fileHandler ggfs w r = Some Panic" by (rule fileHandler_short)
next
  assume a: "length (HandlePath (Conf ggfs)) \<le> length (URL_Path r) \<and>
    getFile (GFS ggfs) (drop (length (HandlePath (Conf ggfs))) (URL_Path r))
      (Field_conf (Conf ggfs)) = Some (Return res)"
  obtain data filename err gfs' where res: "res = ((data, filename, err), gfs')"
    by (metis prod.exhaust)
  show "\<exists>done. fileHandler ggfs w r = Some (Return done)"
    using fileHandler_returns[of ggfs r data filename err gfs' w] a res by simp
qed

theorem fileHandler_short_path_panics_witness:
  "length (URL_Path \<lparr>URL_Path = ''/f''\<rparr>) < length (HandlePath (Conf sample_ggfs)) \<and>
   fileHandler sample_ggfs fresh_writer \<lparr>URL_Path = ''/f''\<rparr> = Some Panic \<and>
   length (HandlePath (Conf sample_ggfs)) \<le> length (URL_Path \<lparr>URL_Path = ''/f/report.pdf''\<rparr>) \<and>
   (\<exists>done. fileHandler sample_ggfs fresh_writer \<lparr>URL_Path = ''/f/report.pdf''\<rparr> =
        Some (Return done))"
proof -
  have a: "length (URL_Path \<lparr>URL_Path = ''/f''\<rparr>) < length (HandlePath (Conf sample_ggfs))"
    by (simp add: sample_ggfs_simps)
  have b: "length (HandlePath (Conf sample_ggfs)) \<le> length (URL_Path \<lparr>URL_Path = ''/f/report.pdf''\<rparr>)"
    by (simp add: sample_ggfs_simps)
  have g: "getFile (GFS sample_ggfs)
             (drop (length (HandlePath (Conf sample_ggfs))) (URL_Path \<lparr>URL_Path = ''/f/report.pdf''\<rparr>))
             (Field_conf (Conf sample_ggfs)) =
     Some (Return (([1, 2, 3, 4, 5], ''report.pdf'', None),
                   sample_store\<lparr>calls := [OpenCall ''report.pdf'', ReadCall, ReadCall]\<rparr>))"
    using report_pdf_retrieved by (simp add: sample_ggfs_simps)
  have p: "fileHandler sample_ggfs fresh_writer \<lparr>URL_Path = ''/f''\<rparr> = Some Panic"
    using fileHandler_short_path_panics
            [where r = "\<lparr>URL_Path = ''/f''\<rparr>" and ggfs = sample_ggfs and w = fresh_writer] a
    by blast
  have q: "\<exists>done. fileHandler sample_ggfs fresh_writer \<lparr>URL_Path = ''/f/report.pdf''\<rparr> =
        Some (Return done)"
    using fileHandler_short_path_panics
            [where r = "\<lparr>URL_Path = ''/f/report.pdf''\<rparr>" and ggfs = sample_ggfs
               and w = fresh_writer] b g
    by blast
  show ?thesis using a b p q by simp
qed

end
